theory Spec2Isabelle
  imports Main "HOL-Library.Product_Lexorder"
begin

section \<open>Events and time periods\<close>

text \<open>
  An event carries a timestamp, a duration and an opaque data payload. Python's
  \<open>datetime\<close> and \<open>timedelta\<close> are exact counts of microseconds, so both are integers
  here; a \<open>timedelta\<close> may be negative, hence \<open>int\<close> and not \<open>nat\<close>.
\<close>

record 'd event =
  timestamp :: int
  duration :: int
  data :: 'd

record TimePeriod =
  period_start :: int
  period_end :: int

text \<open>
  Modelled from the spec: the class \<open>aw_core.TimePeriod\<close> (its \<open>duration\<close> property and its
  methods \<open>intersection\<close>, \<open>union\<close> and \<open>gap\<close>), which is not among the source files.
  Section 4.1 of the specification gives: \<open>duration = end - start\<close>; \<open>intersection\<close> is the
  overlapping sub-period, or no intersection if
  \<open>max(a.start, b.start) >= min(a.end, b.end)\<close>; \<open>union\<close> is
  \<open>{start: min(a.start, b.start), end: max(a.end, b.end)}\<close>; \<open>gap\<close> is true iff
  \<open>a.end < b.start\<close> or \<open>b.end < a.start\<close>.
\<close>

definition period_duration :: "TimePeriod \<Rightarrow> int" where
  "period_duration p = period_end p - period_start p"

definition intersection :: "TimePeriod \<Rightarrow> TimePeriod \<Rightarrow> TimePeriod option" where
  "intersection a b =
     (let s = max (period_start a) (period_start b);
          e = min (period_end a) (period_end b)
      in if s \<ge> e then None else Some \<lparr>period_start = s, period_end = e\<rparr>)"

definition period_union_tp :: "TimePeriod \<Rightarrow> TimePeriod \<Rightarrow> TimePeriod" where
  "period_union_tp a b =
     \<lparr>period_start = min (period_start a) (period_start b),
      period_end = max (period_end a) (period_end b)\<rparr>"

definition gap :: "TimePeriod \<Rightarrow> TimePeriod \<Rightarrow> bool" where
  "gap a b \<longleftrightarrow> period_end a < period_start b \<or> period_end b < period_start a"

text \<open>
  Modelled from the spec: the ordering of \<open>aw_core.models.Event\<close> used by \<open>sorted\<close>, which is
  not among the source files. Section 3: events are totally ordered by
  \<open>(timestamp, duration)\<close> ascending. Python's \<open>sorted\<close> is stable, as is \<open>sort_key\<close>.
\<close>

definition event_key :: "'d event \<Rightarrow> int \<times> int" where
  "event_key e = (timestamp e, duration e)"

definition sorted_events :: "'d event list \<Rightarrow> 'd event list" where
  "sorted_events es = sort_key event_key es"

section \<open>aw_transform/filter_period_intersect.py\<close>

definition get_event_period :: "'d event \<Rightarrow> TimePeriod" where
  "get_event_period e =
     (let start = timestamp e; end' = start + duration e
      in \<lparr>period_start = start, period_end = end'\<rparr>)"

definition replace_event_period :: "'d event \<Rightarrow> TimePeriod \<Rightarrow> 'd event" where
  "replace_event_period e p = e\<lparr>timestamp := period_start p, duration := period_duration p\<rparr>"

text \<open>
  What the generator \<open>_intersecting_eventpairs\<close> produces, in order: the triples it yields,
  and the error it logs in its last branch. The two indices only move forward, so the
  loop state is the pair of remaining suffixes \<open>events1[e1_i:]\<close> and \<open>events2[e2_i:]\<close>.
\<close>

datatype 'd sweep_item =
    Yield "'d event" "'d event" TimePeriod
  | LogError

fun intersecting_eventpairs :: "'d event list \<Rightarrow> 'd event list \<Rightarrow> 'd sweep_item list" where
  "intersecting_eventpairs [] es2 = []"
| "intersecting_eventpairs (e1 # es1) [] = []"
| "intersecting_eventpairs (e1 # es1) (e2 # es2) =
     (let e1_p = get_event_period e1; e2_p = get_event_period e2
      in case intersection e1_p e2_p of
           Some ip \<Rightarrow>
             Yield e1 e2 ip #
               (if period_end e1_p \<le> period_end e2_p
                then intersecting_eventpairs es1 (e2 # es2)
                else intersecting_eventpairs (e1 # es1) es2)
         | None \<Rightarrow>
             (if period_end e1_p \<le> period_start e2_p
              then intersecting_eventpairs es1 (e2 # es2)
              else if period_end e2_p \<le> period_start e1_p
              then intersecting_eventpairs (e1 # es1) es2
              else LogError # intersecting_eventpairs es1 es2))"

text \<open>
  The same loop with the method \<open>e1_p.intersection(e2_p)\<close> as a parameter, for the
  properties of the loop that hold for more than one reading of the absent class
  \<open>TimePeriod\<close>. With \<open>intersection\<close> for the parameter it is \<open>intersecting_eventpairs\<close>.
\<close>

fun intersecting_eventpairs_by ::
  "(TimePeriod \<Rightarrow> TimePeriod \<Rightarrow> TimePeriod option) \<Rightarrow> 'd event list \<Rightarrow> 'd event list
   \<Rightarrow> 'd sweep_item list" where
  "intersecting_eventpairs_by isect [] es2 = []"
| "intersecting_eventpairs_by isect (e1 # es1) [] = []"
| "intersecting_eventpairs_by isect (e1 # es1) (e2 # es2) =
     (let e1_p = get_event_period e1; e2_p = get_event_period e2
      in case isect e1_p e2_p of
           Some ip \<Rightarrow>
             Yield e1 e2 ip #
               (if period_end e1_p \<le> period_end e2_p
                then intersecting_eventpairs_by isect es1 (e2 # es2)
                else intersecting_eventpairs_by isect (e1 # es1) es2)
         | None \<Rightarrow>
             (if period_end e1_p \<le> period_start e2_p
              then intersecting_eventpairs_by isect es1 (e2 # es2)
              else if period_end e2_p \<le> period_start e1_p
              then intersecting_eventpairs_by isect (e1 # es1) es2
              else LogError # intersecting_eventpairs_by isect es1 es2))"

fun clipped :: "'d sweep_item list \<Rightarrow> 'd event list" where
  "clipped [] = []"
| "clipped (Yield e1 e2 ip # its) = replace_event_period e1 ip # clipped its"
| "clipped (LogError # its) = clipped its"

definition filter_period_intersect :: "'d event list \<Rightarrow> 'd event list \<Rightarrow> 'd event list" where
  "filter_period_intersect events filterevents =
     (let events = sorted_events events;
          filterevents = sorted_events filterevents
      in clipped (intersecting_eventpairs events filterevents))"

text \<open>
  The loop of \<open>period_union\<close>: \<open>merged_events\<close> is the accumulator, never empty when the
  body runs, since the first event was moved into it before the loop.
\<close>

fun merge_loop :: "'d event list \<Rightarrow> 'd event list \<Rightarrow> 'd event list" where
  "merge_loop merged_events [] = merged_events"
| "merge_loop merged_events (e # es) =
     (let last_event = last merged_events;
          e_p = get_event_period e;
          le_p = get_event_period last_event
      in if \<not> gap e_p le_p
         then merge_loop (butlast merged_events @
                [replace_event_period last_event (period_union_tp e_p le_p)]) es
         else merge_loop (merged_events @ [e]) es)"

definition period_union :: "'d event list \<Rightarrow> 'd event list \<Rightarrow> 'd event list" where
  "period_union events1 events2 =
     (case sorted_events (events1 @ events2) of
        [] \<Rightarrow> []
      | e # es \<Rightarrow> merge_loop [e] es)"

definition union_events :: "'d event list \<Rightarrow> 'd event list \<Rightarrow> 'd event list" where
  "union_events events1 events2 = sorted_events (events1 @ events2)"


text \<open>
  The instants an event list covers: those inside the closed period of one of its events.
  It states what \<open>period_union\<close> preserves.
\<close>

definition covers :: "'d event list \<Rightarrow> int \<Rightarrow> bool" where
  "covers es t \<longleftrightarrow> list_ex (\<lambda>e. timestamp e \<le> t \<and> t \<le> timestamp e + duration e) es"

section \<open>aw_datastore/storage_strategies.py\<close>

text \<open>
  Python's slice \<open>xs[i:]\<close>: a negative \<open>i\<close> counts from the end, and an index outside the
  list is clamped, never an error.
\<close>

definition py_slice_from :: "'a list \<Rightarrow> int \<Rightarrow> 'a list" where
  "py_slice_from xs i =
     (let n = int (length xs);
          j = (if i < 0 then max 0 (n + i) else min i n)
      in drop (nat j) xs)"

datatype storage_error = StorageKeyError string

record bucket_metadata =
  meta_id :: string
  meta_name :: string
  meta_type :: string
  meta_client :: string
  meta_hostname :: string
  meta_created :: int

text \<open>\<open>MemoryStorageStrategy\<close>: the two dictionaries \<open>self.db\<close> and \<open>self._metadata\<close>.\<close>

record 'd memory_storage =
  db :: "string \<rightharpoonup> 'd event list"
  metadata :: "string \<rightharpoonup> bucket_metadata"

definition memory_init :: "'d memory_storage" where
  "memory_init = \<lparr>db = Map.empty, metadata = Map.empty\<rparr>"

definition default_name :: "string option \<Rightarrow> string \<Rightarrow> string \<Rightarrow> string" where
  "default_name name client hostname =
     (case name of
        None \<Rightarrow> client @ ''-'' @ hostname
      | Some n \<Rightarrow> if n = [] then client @ ''-'' @ hostname else n)"

definition memory_create_bucket ::
  "'d memory_storage \<Rightarrow> string \<Rightarrow> string \<Rightarrow> string \<Rightarrow> string \<Rightarrow> int \<Rightarrow> string option
   \<Rightarrow> 'd memory_storage" where
  "memory_create_bucket st bucket_id type_id client hostname created name =
     st\<lparr>metadata := (metadata st)(bucket_id \<mapsto>
           \<lparr>meta_id = bucket_id, meta_name = default_name name client hostname,
            meta_type = type_id, meta_client = client, meta_hostname = hostname,
            meta_created = created\<rparr>),
        db := (db st)(bucket_id \<mapsto> [])\<rparr>"

text \<open>
  \<open>delete_bucket\<close> runs \<open>del self.db[bucket_id]\<close> and then
  \<open>del self._metadata[bucket_id]\<close>: a missing key raises \<open>KeyError\<close> at the first of the two
  that lacks it, with the effect of the statement before it already done. The result is
  the error, if any, and the state left behind.
\<close>

definition memory_delete_bucket ::
  "'d memory_storage \<Rightarrow> string \<Rightarrow> storage_error option \<times> 'd memory_storage" where
  "memory_delete_bucket st bucket_id =
     (case db st bucket_id of
        None \<Rightarrow> (Some (StorageKeyError bucket_id), st)
      | Some _ \<Rightarrow>
          (let st1 = st\<lparr>db := (db st)(bucket_id := None)\<rparr>
           in case metadata st1 bucket_id of
                None \<Rightarrow> (Some (StorageKeyError bucket_id), st1)
              | Some _ \<Rightarrow> (None, st1\<lparr>metadata := (metadata st1)(bucket_id := None)\<rparr>)))"

definition memory_get :: "'d memory_storage \<Rightarrow> string \<Rightarrow> int \<Rightarrow> 'd event list" where
  "memory_get st bucket limit =
     (case db st bucket of
        None \<Rightarrow> []
      | Some es \<Rightarrow> py_slice_from es (- limit))"

definition memory_get_metadata ::
  "'d memory_storage \<Rightarrow> string \<Rightarrow> storage_error + bucket_metadata" where
  "memory_get_metadata st bucket_id =
     (case metadata st bucket_id of
        None \<Rightarrow> Inl (StorageKeyError bucket_id)
      | Some m \<Rightarrow> Inr m)"

definition memory_insert_one :: "'d memory_storage \<Rightarrow> string \<Rightarrow> 'd event \<Rightarrow> 'd memory_storage" where
  "memory_insert_one st bucket e =
     (let st1 = (case db st bucket of
                   None \<Rightarrow> st\<lparr>db := (db st)(bucket \<mapsto> [])\<rparr>
                 | Some _ \<Rightarrow> st)
      in st1\<lparr>db := (db st1)(bucket \<mapsto> the (db st1 bucket) @ [e])\<rparr>)"

fun memory_insert_many :: "'d memory_storage \<Rightarrow> string \<Rightarrow> 'd event list \<Rightarrow> 'd memory_storage" where
  "memory_insert_many st bucket [] = st"
| "memory_insert_many st bucket (e # es) = memory_insert_many (memory_insert_one st bucket e) bucket es"

text \<open>
  \<open>FileStorageStrategy.get\<close>: the file system is a map from the path of a bucket's event
  file to its lines; a path is the bucket's directory with the file number. \<open>json.loads\<close>
  belongs to the serialisation collaborator and is a parameter.
\<close>

record 'l file_storage =
  fileno :: nat
  buckets_dir :: string
  files :: "(string \<times> nat) \<rightharpoonup> 'l list"

definition get_bucket_dir :: "'l file_storage \<Rightarrow> string \<Rightarrow> string" where
  "get_bucket_dir st bucket_id = buckets_dir st @ ''/'' @ bucket_id"

definition get_filename :: "'l file_storage \<Rightarrow> string \<Rightarrow> string \<times> nat" where
  "get_filename st bucket_id = (get_bucket_dir st bucket_id, fileno st)"

definition file_get :: "('l \<Rightarrow> 'j) \<Rightarrow> 'l file_storage \<Rightarrow> string \<Rightarrow> int \<Rightarrow> 'j list" where
  "file_get loads st bucket limit =
     (let filename = get_filename st bucket
      in case files st filename of
           None \<Rightarrow> []
         | Some lines \<Rightarrow> map loads (py_slice_from lines (- limit)))"

section \<open>aw_core/query.py\<close>

text \<open>
  A query document is a JSON-like dictionary. Every key the code tests with \<open>in\<close> or reads
  with \<open>[...]\<close> is an optional field, and a value the code tests with \<open>isinstance(_, str)\<close>
  is either a string or something else. The other values have the types of the data
  model of the specification (section 3): a transform and a filter are dictionaries,
  \<open>filters\<close>, \<open>transforms\<close> and \<open>labels\<close> are lists. A document with another type in one
  of these places makes Python raise \<open>TypeError\<close>; such documents are outside these types.
\<close>

datatype jval = JStr string | JOther

datatype vfilter =
    VFilter (vf_name: "jval option") (vf_labels: "string list option")
            (vf_transforms: "btransform list option")
and btransform =
    BTransform (bt_bucket: "jval option") (bt_filters: "vfilter list option")

record query_doc =
  q_transforms :: "btransform list option"
  q_chunk :: "bool option"

datatype query_fault =
    NoBucketSpecified
  | InvalidBucketName
  | BucketDoesNotExist string
  | NoFilterSpecified
  | InvalidFilterName
  | NoSuchFilter string

datatype query_error = QueryException query_fault | KeyError string

text \<open>
  The datastore handle, as \<open>bucket_transform\<close> uses it: \<open>ds.buckets()\<close> for the membership
  test and \<open>ds[bucket].get(limit, start, end)\<close>. The \<open>Datastore\<close> class is not among the
  source files; it is a parameter.
\<close>

record 'd datastore =
  ds_buckets :: "string set"
  ds_get :: "string \<Rightarrow> int \<Rightarrow> int option \<Rightarrow> int option \<Rightarrow> 'd event list"

text \<open>
  The module \<open>transforms\<close> as \<open>query.py\<close> imports it: \<open>filter_period_intersect\<close> is the
  function above; \<open>include_labels\<close>, \<open>exclude_labels\<close> and \<open>chunk\<close> are not among the
  source files and are parameters.
\<close>

record ('d, 'c) transforms =
  t_include_labels :: "'d event list \<Rightarrow> string list \<Rightarrow> 'd event list"
  t_exclude_labels :: "'d event list \<Rightarrow> string list \<Rightarrow> 'd event list"
  t_chunk :: "'d event list \<Rightarrow> 'c"

definition include_labels ::
  "('d, 'c) transforms \<Rightarrow> vfilter \<Rightarrow> 'd event list \<Rightarrow> 'd event list" where
  "include_labels tr tfilter events =
     (case vf_labels tfilter of
        None \<Rightarrow> []
      | Some labels \<Rightarrow> t_include_labels tr events labels)"

definition exclude_labels ::
  "('d, 'c) transforms \<Rightarrow> vfilter \<Rightarrow> 'd event list \<Rightarrow> 'd event list" where
  "exclude_labels tr tfilter events =
     (case vf_labels tfilter of
        None \<Rightarrow> events
      | Some labels \<Rightarrow> t_exclude_labels tr events labels)"

text \<open>
  \<open>bucket_transform\<close> and \<open>timeperiod_intersect\<close> call each other through the table
  \<open>filters\<close>. \<open>apply_filters\<close> is the loop over \<open>btransform["filters"]\<close> with the lookup in
  \<open>filters\<close>; \<open>nested_transforms\<close> is the loop of \<open>timeperiod_intersect\<close> that accumulates
  \<open>filterevents\<close>. An exception ends every loop at once.
\<close>

function (sequential) bucket_transform ::
  "('d, 'c) transforms \<Rightarrow> btransform \<Rightarrow> 'd datastore \<Rightarrow> int \<Rightarrow> int option \<Rightarrow> int option
   \<Rightarrow> query_error + 'd event list"
and apply_filters ::
  "('d, 'c) transforms \<Rightarrow> vfilter list \<Rightarrow> 'd event list \<Rightarrow> 'd datastore \<Rightarrow> int
   \<Rightarrow> int option \<Rightarrow> int option \<Rightarrow> query_error + 'd event list"
and timeperiod_intersect ::
  "('d, 'c) transforms \<Rightarrow> vfilter \<Rightarrow> 'd event list \<Rightarrow> 'd datastore \<Rightarrow> int
   \<Rightarrow> int option \<Rightarrow> int option \<Rightarrow> query_error + 'd event list"
and nested_transforms ::
  "('d, 'c) transforms \<Rightarrow> btransform list \<Rightarrow> 'd event list \<Rightarrow> 'd datastore \<Rightarrow> int
   \<Rightarrow> int option \<Rightarrow> int option \<Rightarrow> query_error + 'd event list"
where
  "bucket_transform tr (BTransform bucket fs) ds limit start end' =
     (case bucket of
        None \<Rightarrow> Inl (QueryException NoBucketSpecified)
      | Some JOther \<Rightarrow> Inl (QueryException InvalidBucketName)
      | Some (JStr b) \<Rightarrow>
          if b \<notin> ds_buckets ds then Inl (QueryException (BucketDoesNotExist b))
          else
            (let events = ds_get ds b limit start end'
             in case fs of
                  None \<Rightarrow> Inr events
                | Some vfilters \<Rightarrow> apply_filters tr vfilters events ds limit start end'))"
| "apply_filters tr [] events ds limit start end' = Inr events"
| "apply_filters tr (VFilter name labels ts # vfilters) events ds limit start end' =
     (case name of
        None \<Rightarrow> Inl (QueryException NoFilterSpecified)
      | Some JOther \<Rightarrow> Inl (QueryException InvalidFilterName)
      | Some (JStr filtername) \<Rightarrow>
          if filtername = ''exclude_labels''
          then apply_filters tr vfilters (exclude_labels tr (VFilter name labels ts) events)
                 ds limit start end'
          else if filtername = ''include_labels''
          then apply_filters tr vfilters (include_labels tr (VFilter name labels ts) events)
                 ds limit start end'
          else if filtername = ''timeperiod_intersect''
          then (case timeperiod_intersect tr (VFilter name labels ts) events ds limit start end' of
                  Inl err \<Rightarrow> Inl err
                | Inr events' \<Rightarrow> apply_filters tr vfilters events' ds limit start end')
          else Inl (QueryException (NoSuchFilter filtername)))"
| "timeperiod_intersect tr (VFilter name labels ts) events ds limit start end' =
     (case ts of
        None \<Rightarrow> Inl (KeyError ''transforms'')
      | Some btransforms \<Rightarrow>
          (case nested_transforms tr btransforms [] ds limit start end' of
             Inl err \<Rightarrow> Inl err
           | Inr filterevents \<Rightarrow> Inr (filter_period_intersect events filterevents)))"
| "nested_transforms tr [] filterevents ds limit start end' = Inr filterevents"
| "nested_transforms tr (btransform # btransforms) filterevents ds limit start end' =
     (case bucket_transform tr btransform ds limit start end' of
        Inl err \<Rightarrow> Inl err
      | Inr evs \<Rightarrow> nested_transforms tr btransforms (filterevents @ evs) ds limit start end')"

  by pat_completeness auto
termination
  by (relation "measure (\<lambda>x. case x of
      Inl (Inl (tr, bt, r)) \<Rightarrow> size bt
    | Inl (Inr (tr, fs, r)) \<Rightarrow> size_list size fs
    | Inr (Inl (tr, f, r)) \<Rightarrow> size f
    | Inr (Inr (tr, bts, r)) \<Rightarrow> size_list size bts)") simp_all

text \<open>The loop of \<open>query\<close> over \<open>query["transforms"]\<close>, accumulating \<open>events\<close>.\<close>

fun query_loop ::
  "('d, 'c) transforms \<Rightarrow> btransform list \<Rightarrow> 'd event list \<Rightarrow> 'd datastore \<Rightarrow> int
   \<Rightarrow> int option \<Rightarrow> int option \<Rightarrow> query_error + 'd event list" where
  "query_loop tr [] events ds limit start end' = Inr events"
| "query_loop tr (transform # ts) events ds limit start end' =
     (case bucket_transform tr transform ds limit start end' of
        Inl err \<Rightarrow> Inl err
      | Inr evs \<Rightarrow> query_loop tr ts (events @ evs) ds limit start end')"

datatype ('c, 'j) query_result =
    Chunked 'c
  | EventResult (eventcount: nat) (eventlist: "'j list")

definition query ::
  "('d, 'c) transforms \<Rightarrow> ('d event \<Rightarrow> 'j) \<Rightarrow> query_doc \<Rightarrow> 'd datastore \<Rightarrow> int
   \<Rightarrow> int option \<Rightarrow> int option \<Rightarrow> query_error + ('c, 'j) query_result" where
  "query tr to_json_dict q ds limit start end' =
     (case q_transforms q of
        None \<Rightarrow> Inl (KeyError ''transforms'')
      | Some ts \<Rightarrow>
          (case query_loop tr ts [] ds limit start end' of
             Inl err \<Rightarrow> Inl err
           | Inr events \<Rightarrow>
               if q_chunk q = Some True
               then Inr (Chunked (t_chunk tr events))
               else Inr (EventResult (length events) (map to_json_dict events))))"

text \<open>
  The buckets a transform names, in the order in which \<open>bucket_transform\<close> looks them up:
  its own \<open>bucket\<close>, then, filter by filter, the buckets of the transforms nested in its
  \<open>timeperiod_intersect\<close> filters.
\<close>

fun transform_buckets :: "btransform \<Rightarrow> string list"
and filter_buckets :: "vfilter \<Rightarrow> string list" where
  "transform_buckets (BTransform bucket fs) =
     (case bucket of Some (JStr b) \<Rightarrow> [b] | _ \<Rightarrow> [])
     @ (case fs of None \<Rightarrow> []
        | Some vfilters \<Rightarrow> concat (map filter_buckets vfilters))"
| "filter_buckets (VFilter name labels ts) =
     (if name = Some (JStr ''timeperiod_intersect'')
      then (case ts of None \<Rightarrow> []
            | Some btransforms \<Rightarrow> concat (map transform_buckets btransforms))
      else [])"

text \<open>
  A transform that is valid but for the existence of its buckets: its \<open>bucket\<close> is a
  string, each of its filters has one of the three names of the table \<open>filters\<close>, and each
  \<open>timeperiod_intersect\<close> filter has a \<open>transforms\<close> list of transforms valid in the same
  sense.
\<close>

fun valid_transform :: "btransform \<Rightarrow> bool"
and valid_filter :: "vfilter \<Rightarrow> bool" where
  "valid_transform (BTransform bucket fs) =
     ((case bucket of Some (JStr b) \<Rightarrow> True | _ \<Rightarrow> False)
      \<and> (case fs of None \<Rightarrow> True
          | Some vfilters \<Rightarrow> list_all valid_filter vfilters))"
| "valid_filter (VFilter name labels ts) =
     (name = Some (JStr ''exclude_labels'') \<or> name = Some (JStr ''include_labels'')
      \<or> (name = Some (JStr ''timeperiod_intersect'')
          \<and> (case ts of None \<Rightarrow> False
              | Some btransforms \<Rightarrow> list_all valid_transform btransforms)))"

section \<open>Properties of the interval algorithms\<close>


lemma set_sorted_events: "set (sorted_events es) = set es"
  by (simp add: sorted_events_def)


lemma sweep_yield_sound:
  "Yield e1 e2 ip \<in> set (intersecting_eventpairs xs ys)
   \<Longrightarrow> e1 \<in> set xs \<and> e2 \<in> set ys \<and>
       intersection (get_event_period e1) (get_event_period e2) = Some ip"
  by (induction xs ys rule: intersecting_eventpairs.induct)
     (auto simp: Let_def split: option.splits if_splits)

lemma clipped_set:
  "x \<in> set (clipped its) \<Longrightarrow> \<exists>e1 e2 ip. Yield e1 e2 ip \<in> set its \<and> x = replace_event_period e1 ip"
  by (induction its rule: clipped.induct) auto

lemma data_replace_event_period: "data (replace_event_period e p) = data e"
  by (simp add: replace_event_period_def)








lemma intersecting_eventpairs_by_intersection:
  "intersecting_eventpairs_by intersection xs ys = intersecting_eventpairs xs ys"
  by (induction xs ys rule: intersecting_eventpairs.induct)
     (simp_all add: Let_def split: option.splits)





lemma merge_loop_snoc:
  "merge_loop (pre @ [l]) es = pre @ merge_loop [l] es"
proof (induction es arbitrary: pre l)
  case Nil
  show ?case by simp
next
  case (Cons e es)
  show ?case
  proof (cases "gap (get_event_period e) (get_event_period l)")
    case True
    have "merge_loop (pre @ [l]) (e # es) = merge_loop ((pre @ [l]) @ [e]) es"
      using True by (simp add: Let_def)
    also have "\<dots> = (pre @ [l]) @ merge_loop [e] es"
      by (rule Cons.IH)
    also have "\<dots> = pre @ merge_loop ([l] @ [e]) es"
      unfolding Cons.IH [of "[l]" e] by simp
    also have "\<dots> = pre @ merge_loop [l] (e # es)"
      using True by (simp add: Let_def)
    finally show ?thesis .
  next
    case False
    then show ?thesis
      using Cons.IH [of pre] Cons.IH [of "[]"] by (simp add: Let_def)
  qed
qed

lemma merge_loop_step:
  "merge_loop [l] (e # es) =
     (if \<not> gap (get_event_period e) (get_event_period l)
      then merge_loop [replace_event_period l
             (period_union_tp (get_event_period e) (get_event_period l))] es
      else l # merge_loop [e] es)"
  using merge_loop_snoc [of "[l]" e es] by (simp add: Let_def)

lemma sorted_sorted_events: "sorted (map event_key (sorted_events es))"
  by (simp add: sorted_events_def)


lemma merged_key_ge:
  "event_key l \<le> event_key e
   \<Longrightarrow> event_key l \<le> event_key (replace_event_period l
          (period_union_tp (get_event_period e) (get_event_period l)))"
  by (auto simp: event_key_def replace_event_period_def period_union_tp_def
      get_event_period_def period_duration_def Let_def min_def max_def)

lemma merged_key_le:
  "event_key l \<le> event_key e \<Longrightarrow> event_key e \<le> event_key e' \<Longrightarrow> event_key l \<le> event_key e'
   \<Longrightarrow> event_key (replace_event_period l
          (period_union_tp (get_event_period e) (get_event_period l))) \<le> event_key e'"
  by (auto simp: event_key_def replace_event_period_def period_union_tp_def
      get_event_period_def period_duration_def Let_def min_def max_def)

lemma merge_loop_sorted:
  "sorted (map event_key es) \<Longrightarrow> \<forall>e \<in> set es. event_key l \<le> event_key e
   \<Longrightarrow> sorted (map event_key (merge_loop [l] es))
       \<and> (\<forall>z \<in> set (merge_loop [l] es). event_key l \<le> event_key z)"
proof (induction es arbitrary: l)
  case Nil
  show ?case by simp
next
  case (Cons e es)
  from Cons.prems have le: "event_key l \<le> event_key e"
    and srt: "sorted (map event_key es)"
    and e_le: "\<forall>x \<in> set es. event_key e \<le> event_key x"
    and l_le: "\<forall>x \<in> set es. event_key l \<le> event_key x"
    by auto
  show ?case
  proof (cases "gap (get_event_period e) (get_event_period l)")
    case True
    from Cons.IH [OF srt e_le]
    have "sorted (map event_key (merge_loop [e] es))"
      and ge: "\<forall>z \<in> set (merge_loop [e] es). event_key e \<le> event_key z"
      by simp_all
    with le True show ?thesis
      unfolding merge_loop_step by (auto intro: order_trans)
  next
    case False
    let ?l' = "replace_event_period l
                 (period_union_tp (get_event_period e) (get_event_period l))"
    have "\<forall>x \<in> set es. event_key ?l' \<le> event_key x"
      using merged_key_le [OF le] e_le l_le by blast
    from Cons.IH [OF srt this]
    have "sorted (map event_key (merge_loop [?l'] es))"
      and "\<forall>z \<in> set (merge_loop [?l'] es). event_key ?l' \<le> event_key z"
      by simp_all
    with merged_key_ge [OF le] False show ?thesis
      unfolding merge_loop_step by (auto intro: order_trans)
  qed
qed

lemma period_union_sorted: "sorted (map event_key (period_union es1 es2))"
proof (cases "sorted_events (es1 @ es2)")
  case Nil
  then show ?thesis by (simp add: period_union_def)
next
  case (Cons e es)
  have "sorted (map event_key (e # es))"
    using sorted_sorted_events [of "es1 @ es2"] Cons by simp
  then have "sorted (map event_key es)" "\<forall>x \<in> set es. event_key e \<le> event_key x"
    by auto
  from merge_loop_sorted [OF this] Cons show ?thesis
    by (simp add: period_union_def)
qed

lemma intersection_start:
  "intersection a b = Some ip \<Longrightarrow> period_start ip = max (period_start a) (period_start b)"
  by (auto simp: intersection_def Let_def split: if_splits)

lemma clipped_timestamp:
  assumes "z \<in> set (clipped (intersecting_eventpairs xs ys))"
  shows "\<exists>e1 \<in> set xs. \<exists>e2 \<in> set ys. timestamp z = max (timestamp e1) (timestamp e2)"
proof -
  from clipped_set [OF assms] obtain e1 e2 ip
    where y: "Yield e1 e2 ip \<in> set (intersecting_eventpairs xs ys)"
      and z: "z = replace_event_period e1 ip" by blast
  from sweep_yield_sound [OF y]
  have "e1 \<in> set xs" "e2 \<in> set ys"
    and "intersection (get_event_period e1) (get_event_period e2) = Some ip" by simp_all
  moreover from this(3) have "timestamp z = max (timestamp e1) (timestamp e2)"
    using z by (simp add: intersection_start replace_event_period_def get_event_period_def Let_def)
  ultimately show ?thesis by blast
qed

lemma sweep_sorted:
  "sorted (map timestamp xs) \<Longrightarrow> sorted (map timestamp ys)
   \<Longrightarrow> sorted (map timestamp (clipped (intersecting_eventpairs xs ys)))"
proof (induction xs ys rule: intersecting_eventpairs.induct)
  case (1 es2)
  show ?case by simp
next
  case (2 e1 es1)
  show ?case by simp
next
  case (3 e1 es1 e2 es2)
  let ?p1 = "get_event_period e1" and ?p2 = "get_event_period e2"
  from "3.prems" have s1: "sorted (map timestamp es1)" and s2: "sorted (map timestamp es2)"
    and lo1: "\<forall>x \<in> set (e1 # es1). timestamp e1 \<le> timestamp x"
    and lo2: "\<forall>y \<in> set (e2 # es2). timestamp e2 \<le> timestamp y"
    by auto
  show ?case
  proof (cases "intersection ?p1 ?p2")
    case None
    with "3.IH"(1-3) [OF refl refl None] "3.prems" s1 s2 show ?thesis
      by (simp add: Let_def)
  next
    case (Some ip)
    have ts: "timestamp (replace_event_period e1 ip) = max (timestamp e1) (timestamp e2)"
      using intersection_start [OF Some]
      by (simp add: replace_event_period_def get_event_period_def Let_def)
    show ?thesis
    proof (cases "period_end ?p1 \<le> period_end ?p2")
      case True
      from "3.IH"(4) [OF refl refl Some True] s1 "3.prems"(2)
      have srt: "sorted (map timestamp (clipped (intersecting_eventpairs es1 (e2 # es2))))"
        by simp
      have "max (timestamp e1) (timestamp e2) \<le> timestamp z"
        if "z \<in> set (clipped (intersecting_eventpairs es1 (e2 # es2)))" for z
      proof -
        from clipped_timestamp [OF that] obtain a b where "a \<in> set es1" "b \<in> set (e2 # es2)"
          "timestamp z = max (timestamp a) (timestamp b)" by blast
        with lo1 lo2 show ?thesis by (auto simp: max_def)
      qed
      with srt ts Some True show ?thesis by (simp add: Let_def)
    next
      case False
      from "3.IH"(5) [OF refl refl Some False] s2 "3.prems"(1)
      have srt: "sorted (map timestamp (clipped (intersecting_eventpairs (e1 # es1) es2)))"
        by simp
      have "max (timestamp e1) (timestamp e2) \<le> timestamp z"
        if "z \<in> set (clipped (intersecting_eventpairs (e1 # es1) es2))" for z
      proof -
        from clipped_timestamp [OF that] obtain a b where "a \<in> set (e1 # es1)" "b \<in> set es2"
          "timestamp z = max (timestamp a) (timestamp b)" by blast
        with lo1 lo2 show ?thesis by (auto simp: max_def)
      qed
      with srt ts Some False show ?thesis by (simp add: Let_def)
    qed
  qed
qed

lemma sorted_events_timestamp: "sorted (map timestamp (sorted_events es))"
proof -
  have "sorted_wrt (\<lambda>x y. event_key x \<le> event_key y) (sorted_events es)"
    using sorted_sorted_events [of es] by (simp add: sorted_map)
  then have "sorted_wrt (\<lambda>x y. timestamp x \<le> timestamp y) (sorted_events es)"
    by (rule sorted_wrt_mono_rel [rotated]) (auto simp: event_key_def)
  then show ?thesis by (simp add: sorted_map)
qed

lemma filter_period_intersect_sorted:
  "sorted (map timestamp (filter_period_intersect es fs))"
  unfolding filter_period_intersect_def Let_def
  by (intro sweep_sorted sorted_events_timestamp)

text \<open>
  Claim C5, as the code has it. For any input lists, the output of
  \<open>filter_period_intersect\<close> is non-decreasing by timestamp, and the output of
  \<open>period_union\<close> is non-decreasing by \<open>(timestamp, duration)\<close>. The first is not
  non-decreasing by \<open>(timestamp, duration)\<close>: two events clipped by the same filter
  event start together, and the one emitted first may last longer.
\<close>

theorem interval_outputs_sorted:
  "sorted (map timestamp (filter_period_intersect es fs))
   \<and> sorted (map event_key (period_union es1 es2))"
  by (simp add: filter_period_intersect_sorted period_union_sorted)

theorem interval_outputs_sorted_witness:
  "sorted (map timestamp (filter_period_intersect
      [\<lparr>timestamp = 0, duration = 10, data = ''a''\<rparr>, \<lparr>timestamp = 1, duration = 2, data = ''b''\<rparr>]
      [\<lparr>timestamp = 2, duration = 100, data = ''f''\<rparr>]))
   \<and> sorted (map event_key (period_union
      [\<lparr>timestamp = 4, duration = 5, data = ''a''\<rparr>, \<lparr>timestamp = 20, duration = 1, data = ''b''\<rparr>]
      [\<lparr>timestamp = 0, duration = 5, data = ''c''\<rparr>]))"
  using interval_outputs_sorted
    [of "[\<lparr>timestamp = 0, duration = 10, data = ''a''\<rparr>, \<lparr>timestamp = 1, duration = 2, data = ''b''\<rparr>]"
        "[\<lparr>timestamp = 2, duration = 100, data = ''f''\<rparr>]"
        "[\<lparr>timestamp = 4, duration = 5, data = ''a''\<rparr>, \<lparr>timestamp = 20, duration = 1, data = ''b''\<rparr>]"
        "[\<lparr>timestamp = 0, duration = 5, data = ''c''\<rparr>]"]
  by simp

theorem filter_period_intersect_not_key_sorted:
  "filter_period_intersect
      [\<lparr>timestamp = 0, duration = 10, data = ''a''\<rparr>, \<lparr>timestamp = 1, duration = 2, data = ''b''\<rparr>]
      [\<lparr>timestamp = 2, duration = 100, data = ''f''\<rparr>]
    = [\<lparr>timestamp = 2, duration = 8, data = ''a''\<rparr>, \<lparr>timestamp = 2, duration = 1, data = ''b''\<rparr>]
   \<and> \<not> sorted (map event_key (filter_period_intersect
      [\<lparr>timestamp = 0, duration = 10, data = ''a''\<rparr>, \<lparr>timestamp = 1, duration = 2, data = ''b''\<rparr>]
      [\<lparr>timestamp = 2, duration = 100, data = ''f''\<rparr>]))"
  by (simp add: filter_period_intersect_def sorted_events_def event_key_def
      get_event_period_def intersection_def replace_event_period_def period_duration_def Let_def)

lemma covers_Cons:
  "covers (e # es) t \<longleftrightarrow> (timestamp e \<le> t \<and> t \<le> timestamp e + duration e) \<or> covers es t"
  by (simp add: covers_def)

lemma covers_Nil: "\<not> covers [] t"
  by (simp add: covers_def)

lemma covers_set_cong: "set xs = set ys \<Longrightarrow> covers xs t = covers ys t"
  by (simp add: covers_def list_ex_iff)

lemma merged_fields:
  assumes "timestamp l \<le> timestamp e"
  shows "timestamp (replace_event_period l
            (period_union_tp (get_event_period e) (get_event_period l))) = timestamp l"
    and "duration (replace_event_period l
            (period_union_tp (get_event_period e) (get_event_period l)))
         = max (timestamp e + duration e) (timestamp l + duration l) - timestamp l"
  using assms
  by (simp_all add: replace_event_period_def period_union_tp_def get_event_period_def
      period_duration_def Let_def)

lemma merge_loop_separated:
  assumes "sorted (map timestamp (l # es))" and "0 \<le> duration l"
    and "\<forall>e \<in> set es. 0 \<le> duration e"
  shows "sorted_wrt (\<lambda>a b. timestamp a + duration a < timestamp b) (merge_loop [l] es)
    \<and> (\<forall>z \<in> set (merge_loop [l] es). timestamp l \<le> timestamp z \<and> 0 \<le> duration z)
    \<and> (\<forall>t. covers (merge_loop [l] es) t \<longleftrightarrow> covers (l # es) t)"
  using assms
proof (induction es arbitrary: l)
  case Nil
  then show ?case by simp
next
  case (Cons e es)
  from Cons.prems have le: "timestamp l \<le> timestamp e"
    and srt: "sorted (map timestamp (e # es))"
    and l_lo: "\<forall>x \<in> set es. timestamp l \<le> timestamp x"
    and de: "0 \<le> duration e" and dl: "0 \<le> duration l"
    and des: "\<forall>x \<in> set es. 0 \<le> duration x"
    by auto
  show ?case
  proof (cases "gap (get_event_period e) (get_event_period l)")
    case True
    with le de have sep: "timestamp l + duration l < timestamp e"
      by (auto simp: gap_def get_event_period_def Let_def)
    from Cons.IH [OF srt de des]
    have ih1: "sorted_wrt (\<lambda>a b. timestamp a + duration a < timestamp b) (merge_loop [e] es)"
      and ih2: "\<forall>z \<in> set (merge_loop [e] es). timestamp e \<le> timestamp z \<and> 0 \<le> duration z"
      and ih3: "\<forall>t. covers (merge_loop [e] es) t \<longleftrightarrow> covers (e # es) t"
      by simp_all
    have step: "merge_loop [l] (e # es) = l # merge_loop [e] es"
      using True by (subst merge_loop_step) simp
    have "sorted_wrt (\<lambda>a b. timestamp a + duration a < timestamp b) (l # merge_loop [e] es)"
      using ih1 ih2 sep by fastforce
    moreover have "\<forall>z \<in> set (l # merge_loop [e] es). timestamp l \<le> timestamp z \<and> 0 \<le> duration z"
      using ih2 le dl by fastforce
    moreover have "\<forall>t. covers (l # merge_loop [e] es) t \<longleftrightarrow> covers (l # e # es) t"
      using ih3 by (simp add: covers_Cons)
    ultimately show ?thesis unfolding step by blast
  next
    case False
    let ?l' = "replace_event_period l
                 (period_union_tp (get_event_period e) (get_event_period l))"
    note f = merged_fields [OF le]
    from False have touch: "timestamp e \<le> timestamp l + duration l"
      "timestamp l \<le> timestamp e + duration e"
      by (auto simp: gap_def get_event_period_def Let_def)
    have dl': "0 \<le> duration ?l'" using f dl by simp
    have srt': "sorted (map timestamp (?l' # es))"
      using srt l_lo f by simp
    from Cons.IH [OF srt' dl' des]
    have ih1: "sorted_wrt (\<lambda>a b. timestamp a + duration a < timestamp b) (merge_loop [?l'] es)"
      and ih2: "\<forall>z \<in> set (merge_loop [?l'] es). timestamp ?l' \<le> timestamp z \<and> 0 \<le> duration z"
      and ih3: "\<forall>t. covers (merge_loop [?l'] es) t \<longleftrightarrow> covers (?l' # es) t"
      by simp_all
    have step: "merge_loop [l] (e # es) = merge_loop [?l'] es"
      using False by (subst merge_loop_step) simp
    have cov: "covers (?l' # es) t \<longleftrightarrow> covers (l # e # es) t" for t
      using f touch le de dl by (auto simp: covers_Cons max_def)
    show ?thesis
      unfolding step using ih1 ih2 ih3 cov f(1) by simp
  qed
qed

lemma period_union_separated:
  assumes "\<forall>e \<in> set (es1 @ es2). 0 \<le> duration e"
  shows "sorted_wrt (\<lambda>a b. timestamp a + duration a < timestamp b) (period_union es1 es2)
    \<and> (\<forall>z \<in> set (period_union es1 es2). 0 \<le> duration z)
    \<and> (\<forall>t. covers (period_union es1 es2) t \<longleftrightarrow> covers (es1 @ es2) t)"
proof (cases "sorted_events (es1 @ es2)")
  case Nil
  then have "set (es1 @ es2) = {}"
    using set_sorted_events [of "es1 @ es2"] by simp
  then have "es1 @ es2 = []" by simp
  with Nil show ?thesis by (simp add: period_union_def covers_Nil)
next
  case (Cons e es)
  have s: "set (e # es) = set (es1 @ es2)"
    using set_sorted_events [of "es1 @ es2"] Cons by simp
  have "sorted (map timestamp (e # es))"
    using sorted_events_timestamp [of "es1 @ es2"] Cons by simp
  moreover have "0 \<le> duration e" "\<forall>x \<in> set es. 0 \<le> duration x"
    using assms s by auto
  ultimately have *: "sorted_wrt (\<lambda>a b. timestamp a + duration a < timestamp b) (merge_loop [e] es)
    \<and> (\<forall>z \<in> set (merge_loop [e] es). timestamp e \<le> timestamp z \<and> 0 \<le> duration z)
    \<and> (\<forall>t. covers (merge_loop [e] es) t \<longleftrightarrow> covers (e # es) t)"
    by (rule merge_loop_separated)
  have pu: "period_union es1 es2 = merge_loop [e] es"
    using Cons by (simp add: period_union_def)
  show ?thesis
    unfolding pu using * covers_set_cong [OF s] by simp
qed

text \<open>
  Claim C6. \<open>period_union\<close> merges touching or overlapping periods and keeps periods with
  a gap between them apart: \<open>[(0,5)]\<close> with \<open>[(4,5)]\<close> gives the single event \<open>(0,9)\<close>, and
  \<open>[(0,1)]\<close> with \<open>[(5,1)]\<close> gives the two events unmerged. For events of non-negative
  duration the result is ascending and gap-separated (each event ends strictly before
  every later one starts), its durations are non-negative, and it covers exactly the
  instants the two input lists cover.
\<close>

theorem period_union_coalesces:
  "period_union [\<lparr>timestamp = 0, duration = 5, data = d1\<rparr>]
                [\<lparr>timestamp = 4, duration = 5, data = d2\<rparr>]
     = [\<lparr>timestamp = 0, duration = 9, data = d1\<rparr>]
   \<and> period_union [\<lparr>timestamp = 0, duration = 1, data = d1\<rparr>]
                  [\<lparr>timestamp = 5, duration = 1, data = d2\<rparr>]
     = [\<lparr>timestamp = 0, duration = 1, data = d1\<rparr>, \<lparr>timestamp = 5, duration = 1, data = d2\<rparr>]
   \<and> ((\<forall>e \<in> set (es1 @ es2). 0 \<le> duration e) \<longrightarrow>
        sorted_wrt (\<lambda>a b. timestamp a + duration a < timestamp b) (period_union es1 es2)
        \<and> (\<forall>z \<in> set (period_union es1 es2). 0 \<le> duration z)
        \<and> (\<forall>t. covers (period_union es1 es2) t \<longleftrightarrow> covers (es1 @ es2) t))"
proof (intro conjI impI)
  show "period_union [\<lparr>timestamp = 0, duration = 5, data = d1\<rparr>]
                [\<lparr>timestamp = 4, duration = 5, data = d2\<rparr>]
     = [\<lparr>timestamp = 0, duration = 9, data = d1\<rparr>]"
    by (simp add: period_union_def sorted_events_def event_key_def get_event_period_def
        gap_def period_union_tp_def replace_event_period_def period_duration_def Let_def)
  show "period_union [\<lparr>timestamp = 0, duration = 1, data = d1\<rparr>]
                  [\<lparr>timestamp = 5, duration = 1, data = d2\<rparr>]
     = [\<lparr>timestamp = 0, duration = 1, data = d1\<rparr>, \<lparr>timestamp = 5, duration = 1, data = d2\<rparr>]"
    by (simp add: period_union_def sorted_events_def event_key_def get_event_period_def
        gap_def Let_def)
next
  assume nonneg: "\<forall>e \<in> set (es1 @ es2). 0 \<le> duration e"
  note sep = period_union_separated [OF nonneg]
  from sep show "sorted_wrt (\<lambda>a b. timestamp a + duration a < timestamp b) (period_union es1 es2)"
    by blast
  from sep show "\<forall>z \<in> set (period_union es1 es2). 0 \<le> duration z"
    by blast
  from sep show "\<forall>t. covers (period_union es1 es2) t \<longleftrightarrow> covers (es1 @ es2) t"
    by blast
qed

theorem period_union_coalesces_witness:
  "0 \<le> duration \<lparr>timestamp = 0, duration = 5, data = ''a''\<rparr>
   \<and> 0 \<le> duration \<lparr>timestamp = 4, duration = 5, data = ''b''\<rparr>
   \<and> period_union [\<lparr>timestamp = 0, duration = 5, data = ''a''\<rparr>]
                  [\<lparr>timestamp = 4, duration = 5, data = ''b''\<rparr>]
       = [\<lparr>timestamp = 0, duration = 9, data = ''a''\<rparr>]
   \<and> sorted_wrt (\<lambda>a b. timestamp a + duration a < timestamp b)
        (period_union [\<lparr>timestamp = 0, duration = 5, data = ''a''\<rparr>]
                      [\<lparr>timestamp = 4, duration = 5, data = ''b''\<rparr>])
   \<and> covers (period_union [\<lparr>timestamp = 0, duration = 5, data = ''a''\<rparr>]
                      [\<lparr>timestamp = 4, duration = 5, data = ''b''\<rparr>]) 7
   \<and> covers ([\<lparr>timestamp = 0, duration = 5, data = ''a''\<rparr>]
              @ [\<lparr>timestamp = 4, duration = 5, data = ''b''\<rparr>]) 7"
  using period_union_coalesces
    [where ?d1.0 = "''a''" and ?d2.0 = "''b''"
       and ?es1.0 = "[\<lparr>timestamp = 0, duration = 5, data = ''a''\<rparr>]"
       and ?es2.0 = "[\<lparr>timestamp = 4, duration = 5, data = ''b''\<rparr>]"]
  by (simp add: covers_def)

lemma merge_loop_groups:
  assumes "sorted (map timestamp (l # es))" and "g \<noteq> []" and "data l = data (hd g)"
    and "\<forall>x \<in> set g. timestamp l \<le> timestamp x
           \<and> timestamp x + duration x \<le> timestamp l + duration l"
  shows "\<exists>gs. concat gs = g @ es
    \<and> list_all2 (\<lambda>z g. g \<noteq> [] \<and> data z = data (hd g)
          \<and> (\<forall>x \<in> set g. timestamp z \<le> timestamp x
                \<and> timestamp x + duration x \<le> timestamp z + duration z))
        (merge_loop [l] es) gs"
  using assms
proof (induction es arbitrary: l g)
  case Nil
  then have "concat [g] = g @ [] \<and> list_all2 (\<lambda>z g. g \<noteq> [] \<and> data z = data (hd g)
          \<and> (\<forall>x \<in> set g. timestamp z \<le> timestamp x
                \<and> timestamp x + duration x \<le> timestamp z + duration z))
        (merge_loop [l] []) [g]"
    by simp
  then show ?case by blast
next
  case (Cons e es)
  let ?R = "\<lambda>z g. g \<noteq> [] \<and> data z = data (hd g)
          \<and> (\<forall>x \<in> set g. timestamp z \<le> timestamp x
                \<and> timestamp x + duration x \<le> timestamp z + duration z)"
  from Cons.prems(1) have le: "timestamp l \<le> timestamp e"
    and srt: "sorted (map timestamp (e # es))"
    and l_lo: "\<forall>x \<in> set es. timestamp l \<le> timestamp x"
    by auto
  show ?case
  proof (cases "gap (get_event_period e) (get_event_period l)")
    case True
    have step: "merge_loop [l] (e # es) = l # merge_loop [e] es"
      using True by (subst merge_loop_step) simp
    from Cons.IH [OF srt, of "[e]"] obtain gs'
      where c: "concat gs' = [e] @ es" and r: "list_all2 ?R (merge_loop [e] es) gs'"
      by auto
    have "concat (g # gs') = g @ e # es" using c by simp
    moreover have "list_all2 ?R (l # merge_loop [e] es) (g # gs')"
      using r Cons.prems(2-4) by simp
    ultimately show ?thesis unfolding step by blast
  next
    case False
    let ?l' = "replace_event_period l
                 (period_union_tp (get_event_period e) (get_event_period l))"
    note f = merged_fields [OF le]
    have step: "merge_loop [l] (e # es) = merge_loop [?l'] es"
      using False by (subst merge_loop_step) simp
    have srt': "sorted (map timestamp (?l' # es))"
      using srt l_lo f by simp
    have d: "data ?l' = data (hd (g @ [e]))"
      using Cons.prems(2,3) by (simp add: data_replace_event_period)
    have inside: "\<forall>x \<in> set (g @ [e]). timestamp ?l' \<le> timestamp x
           \<and> timestamp x + duration x \<le> timestamp ?l' + duration ?l'"
      using Cons.prems(4) le f by (auto simp: max_def)
    from Cons.IH [OF srt' _ d inside] obtain gs
      where "concat gs = (g @ [e]) @ es" and "list_all2 ?R (merge_loop [?l'] es) gs"
      by auto
    then show ?thesis unfolding step by auto
  qed
qed

text \<open>
  Claim C10. \<open>period_union\<close> keeps, for every output segment, the data of the earliest
  event merged into it: the sorted input splits into consecutive non-empty groups, one per
  output event in order; each output event's period contains the periods of all events of
  its group, and its data is the data of the group's first event, the earliest of the
  group in the \<open>(timestamp, duration)\<close> order.
\<close>

theorem period_union_keeps_first_data:
  "\<exists>gs. concat gs = sorted_events (es1 @ es2)
     \<and> list_all2 (\<lambda>z g. g \<noteq> [] \<and> data z = data (hd g)
          \<and> (\<forall>x \<in> set g. timestamp z \<le> timestamp x
                \<and> timestamp x + duration x \<le> timestamp z + duration z))
        (period_union es1 es2) gs"
proof (cases "sorted_events (es1 @ es2)")
  case Nil
  then have "concat [] = sorted_events (es1 @ es2)
     \<and> list_all2 (\<lambda>z g. g \<noteq> [] \<and> data z = data (hd g)
          \<and> (\<forall>x \<in> set g. timestamp z \<le> timestamp x
                \<and> timestamp x + duration x \<le> timestamp z + duration z))
        (period_union es1 es2) []"
    by (simp add: period_union_def)
  then show ?thesis by blast
next
  case (Cons e es)
  have "sorted (map timestamp (e # es))"
    using sorted_events_timestamp [of "es1 @ es2"] Cons by simp
  from merge_loop_groups [OF this, of "[e]"] Cons show ?thesis
    by (simp add: period_union_def)
qed

theorem period_union_keeps_first_data_witness:
  "period_union [\<lparr>timestamp = 4, duration = 5, data = ''late''\<rparr>,
                 \<lparr>timestamp = 20, duration = 1, data = ''alone''\<rparr>]
                [\<lparr>timestamp = 0, duration = 5, data = ''early''\<rparr>,
                 \<lparr>timestamp = 9, duration = 2, data = ''later''\<rparr>]
     = [\<lparr>timestamp = 0, duration = 11, data = ''early''\<rparr>,
        \<lparr>timestamp = 20, duration = 1, data = ''alone''\<rparr>]
   \<and> (\<exists>gs. concat gs = sorted_events
          ([\<lparr>timestamp = 4, duration = 5, data = ''late''\<rparr>,
            \<lparr>timestamp = 20, duration = 1, data = ''alone''\<rparr>]
           @ [\<lparr>timestamp = 0, duration = 5, data = ''early''\<rparr>,
              \<lparr>timestamp = 9, duration = 2, data = ''later''\<rparr>])
        \<and> map (\<lambda>g. data (hd g)) gs = [''early'', ''alone''])"
proof -
  let ?es1 = "[\<lparr>timestamp = 4, duration = 5, data = ''late''\<rparr>,
               \<lparr>timestamp = 20, duration = 1, data = ''alone''\<rparr>]"
  let ?es2 = "[\<lparr>timestamp = 0, duration = 5, data = ''early''\<rparr>,
               \<lparr>timestamp = 9, duration = 2, data = ''later''\<rparr>]"
  have pu: "period_union ?es1 ?es2
     = [\<lparr>timestamp = 0, duration = 11, data = ''early''\<rparr>,
        \<lparr>timestamp = 20, duration = 1, data = ''alone''\<rparr>]"
    by (simp add: period_union_def sorted_events_def event_key_def get_event_period_def
        gap_def period_union_tp_def replace_event_period_def period_duration_def Let_def)
  from period_union_keeps_first_data [of ?es1 ?es2] obtain gs
    where c: "concat gs = sorted_events (?es1 @ ?es2)"
      and r: "list_all2 (\<lambda>z g. g \<noteq> [] \<and> data z = data (hd g)
          \<and> (\<forall>x \<in> set g. timestamp z \<le> timestamp x
                \<and> timestamp x + duration x \<le> timestamp z + duration z))
        (period_union ?es1 ?es2) gs"
    by blast
  from r have "map (\<lambda>g. data (hd g)) gs = map data (period_union ?es1 ?es2)"
    by (induction rule: list_all2_induct) simp_all
  with pu have m: "map (\<lambda>g. data (hd g)) gs = [''early'', ''alone'']" by simp
  from c m have "\<exists>gs. concat gs = sorted_events (?es1 @ ?es2)
        \<and> map (\<lambda>g. data (hd g)) gs = [''early'', ''alone'']"
    by (intro exI [of _ gs] conjI)
  with pu show ?thesis by (intro conjI)
qed

section \<open>Properties of the storage strategies\<close>

text \<open>
  Claim C3. The claim: for an existing bucket and a negative limit, \<open>get\<close> returns all
  the bucket's events. The code slices with \<open>[-limit:]\<close>, so a limit of \<open>-1\<close> is the slice
  \<open>[1:]\<close> and drops the bucket's first event, in the memory backend and in the file
  backend alike; only a limit of \<open>0\<close> returns everything.
\<close>

theorem get_negative_limit_drops_events:
  "memory_get \<lparr>db = [''b'' \<mapsto> [\<lparr>timestamp = 0, duration = 1, data = ''x''\<rparr>,
                                  \<lparr>timestamp = 5, duration = 1, data = ''y''\<rparr>]],
               metadata = Map.empty\<rparr> ''b'' (- 1)
     = [\<lparr>timestamp = 5, duration = 1, data = ''y''\<rparr>]
   \<and> file_get (\<lambda>l. l) \<lparr>fileno = 0, buckets_dir = ''buckets'',
                          files = [(''buckets/b'', 0) \<mapsto> [''line1'', ''line2'']]\<rparr> ''b'' (- 1)
     = [''line2'']
   \<and> memory_get \<lparr>db = [''b'' \<mapsto> [\<lparr>timestamp = 0, duration = 1, data = ''x''\<rparr>,
                                  \<lparr>timestamp = 5, duration = 1, data = ''y''\<rparr>]],
               metadata = Map.empty\<rparr> ''b'' 0
     = [\<lparr>timestamp = 0, duration = 1, data = ''x''\<rparr>,
        \<lparr>timestamp = 5, duration = 1, data = ''y''\<rparr>]"
  by (simp add: memory_get_def file_get_def py_slice_from_def get_filename_def
      get_bucket_dir_def Let_def)

lemma py_slice_from_all: "py_slice_from xs 0 = xs"
  by (simp add: py_slice_from_def)

lemma py_slice_from_singleton: "i \<le> 0 \<Longrightarrow> py_slice_from [x] i = [x]"
  by (auto simp: py_slice_from_def Let_def max_def)

text \<open>
  Claim C9. In the memory backend, \<open>get\<close> on a bucket id that was never created returns
  the empty list, and \<open>insert_one\<close> into such an id succeeds: it creates the event log
  holding the event and leaves the metadata untouched, so the id has no metadata and
  \<open>get_metadata\<close> raises; a later \<open>get\<close> with a limit that is not negative returns the
  inserted event.
\<close>

theorem memory_never_created_bucket:
  assumes "db st bucket = None" and "metadata st bucket = None"
  shows "memory_get st bucket limit = []
    \<and> db (memory_insert_one st bucket e) bucket = Some [e]
    \<and> metadata (memory_insert_one st bucket e) = metadata st
    \<and> memory_get_metadata (memory_insert_one st bucket e) bucket = Inl (StorageKeyError bucket)
    \<and> (0 \<le> limit \<longrightarrow> memory_get (memory_insert_one st bucket e) bucket limit = [e])"
  using assms
  by (simp add: memory_get_def memory_insert_one_def memory_get_metadata_def
      py_slice_from_singleton Let_def)

theorem memory_never_created_bucket_witness:
  "db (memory_init :: string memory_storage) ''w'' = None
   \<and> memory_get (memory_init :: string memory_storage) ''w'' 0 = []
   \<and> memory_get (memory_insert_one memory_init ''w''
         \<lparr>timestamp = 3, duration = 4, data = ''x''\<rparr>) ''w'' 0
       = [\<lparr>timestamp = 3, duration = 4, data = ''x''\<rparr>]
   \<and> memory_get_metadata (memory_insert_one memory_init ''w''
         \<lparr>timestamp = 3, duration = 4, data = ''x''\<rparr>) ''w'' = Inl (StorageKeyError ''w'')"
  using memory_never_created_bucket
    [where st = "memory_init :: string memory_storage" and bucket = "''w''"
       and e = "\<lparr>timestamp = 3, duration = 4, data = ''x''\<rparr>" and limit = 0]
  by (simp add: memory_init_def)

section \<open>Properties of the query evaluator\<close>

text \<open>
  Claim C8. Without a \<open>labels\<close> field the two label filters differ: \<open>include_labels\<close>
  returns the empty list for every event list, \<open>exclude_labels\<close> returns the event list
  unchanged; the same holds when \<open>bucket_transform\<close> reaches them through the filter table.
\<close>

theorem label_filters_without_labels:
  assumes "vf_labels tfilter = None"
  shows "include_labels tr tfilter events = []
    \<and> exclude_labels tr tfilter events = events
    \<and> apply_filters tr [VFilter (Some (JStr ''include_labels'')) None ts] events
          ds limit start end' = Inr []
    \<and> apply_filters tr [VFilter (Some (JStr ''exclude_labels'')) None ts] events
          ds limit start end' = Inr events"
  using assms by (simp add: include_labels_def exclude_labels_def)

theorem label_filters_without_labels_witness:
  "vf_labels (VFilter (Some (JStr ''include_labels'')) None None) = None
   \<and> include_labels
        \<lparr>t_include_labels = (\<lambda>es ls. es), t_exclude_labels = (\<lambda>es ls. es), t_chunk = length\<rparr>
        (VFilter (Some (JStr ''include_labels'')) None None)
        [\<lparr>timestamp = 0, duration = 1, data = ''x''\<rparr>] = []
   \<and> exclude_labels
        \<lparr>t_include_labels = (\<lambda>es ls. es), t_exclude_labels = (\<lambda>es ls. es), t_chunk = length\<rparr>
        (VFilter (Some (JStr ''include_labels'')) None None)
        [\<lparr>timestamp = 0, duration = 1, data = ''x''\<rparr>]
       = [\<lparr>timestamp = 0, duration = 1, data = ''x''\<rparr>]"
  using label_filters_without_labels
    [where tfilter = "VFilter (Some (JStr ''include_labels'')) None None"
       and tr = "\<lparr>t_include_labels = (\<lambda>es ls. es), t_exclude_labels = (\<lambda>es ls. es),
                  t_chunk = length\<rparr>"
       and events = "[\<lparr>timestamp = 0, duration = 1, data = ''x''\<rparr>]"]
  by simp

lemmas query_induct = bucket_transform_apply_filters_timeperiod_intersect_nested_transforms.induct

lemma nested_transforms_concat:
  "list_all2 (\<lambda>bt r. bucket_transform tr bt ds limit start end' = Inr r) bts rs
   \<Longrightarrow> nested_transforms tr bts acc ds limit start end' = Inr (acc @ concat rs)"
  by (induction bts rs arbitrary: acc rule: list_all2_induct) simp_all

lemma nested_transforms_error:
  "list_all2 (\<lambda>bt r. bucket_transform tr bt ds limit start end' = Inr r) pre rs
   \<Longrightarrow> bucket_transform tr bt ds limit start end' = Inl err
   \<Longrightarrow> nested_transforms tr (pre @ bt # post) acc ds limit start end' = Inl err"
  by (induction pre rs arbitrary: acc rule: list_all2_induct) simp_all

lemma query_loop_concat:
  "list_all2 (\<lambda>bt r. bucket_transform tr bt ds limit start end' = Inr r) bts rs
   \<Longrightarrow> query_loop tr bts acc ds limit start end' = Inr (acc @ concat rs)"
  by (induction bts rs arbitrary: acc rule: list_all2_induct) simp_all

lemma query_loop_error:
  "list_all2 (\<lambda>bt r. bucket_transform tr bt ds limit start end' = Inr r) pre rs
   \<Longrightarrow> bucket_transform tr bt ds limit start end' = Inl err
   \<Longrightarrow> query_loop tr (pre @ bt # post) acc ds limit start end' = Inl err"
  by (induction pre rs arbitrary: acc rule: list_all2_induct) simp_all




lemma find_append_case:
  "find P (xs @ ys) = (case find P xs of Some x \<Rightarrow> Some x | None \<Rightarrow> find P ys)"
  by (induction xs) simp_all

lemma missing_bucket_fails_aux:
  "(list_ex (\<lambda>b. b \<notin> ds_buckets ds) (transform_buckets bt) \<longrightarrow>
      (\<exists>err. bucket_transform tr bt ds limit start end' = Inl err))"
  "(list_ex (\<lambda>b. b \<notin> ds_buckets ds) (concat (map filter_buckets fs)) \<longrightarrow>
      (\<exists>err. apply_filters tr fs events ds limit start end' = Inl err))"
  "(list_ex (\<lambda>b. b \<notin> ds_buckets ds) (filter_buckets f) \<longrightarrow>
      (\<exists>err. timeperiod_intersect tr f events2 ds limit start end' = Inl err))"
  "(list_ex (\<lambda>b. b \<notin> ds_buckets ds) (concat (map transform_buckets bts)) \<longrightarrow>
      (\<exists>err. nested_transforms tr bts acc ds limit start end' = Inl err))"
proof (induction tr bt ds limit start end' and tr fs events ds limit start end'
        and tr f events2 ds limit start end' and tr bts acc ds limit start end'
        rule: query_induct)
  case (1 tr bucket fs ds limit start end')
  show ?case
  proof (cases bucket)
    case None
    then show ?thesis by simp
  next
    case (Some v)
    show ?thesis
    proof (cases v)
      case JOther
      with Some show ?thesis by simp
    next
      case (JStr b)
      show ?thesis
      proof (cases "b \<in> ds_buckets ds")
        case False
        with Some JStr show ?thesis by simp
      next
        case True
        show ?thesis
        proof (cases fs)
          case None
          with Some JStr True show ?thesis by simp
        next
          case fs: (Some vfilters)
          from 1 [OF Some JStr _ refl fs] True
          have "list_ex (\<lambda>b. b \<notin> ds_buckets ds) (concat (map filter_buckets vfilters)) \<longrightarrow>
                (\<exists>err. apply_filters tr vfilters (ds_get ds b limit start end') ds limit start end'
                        = Inl err)"
            by simp
          with Some JStr True fs show ?thesis by simp
        qed
      qed
    qed
  qed
next
  case (2 tr events ds limit start end')
  show ?case by simp
next
  case (3 tr name labels ts vfilters events ds limit start end')
  show ?case
  proof (cases name)
    case None
    then show ?thesis by simp
  next
    case (Some v)
    show ?thesis
    proof (cases v)
      case JOther
      with Some show ?thesis by simp
    next
      case (JStr n)
      consider (ex) "n = ''exclude_labels''" | (inc) "n = ''include_labels''"
        | (tp) "n = ''timeperiod_intersect''"
        | (other) "n \<noteq> ''exclude_labels''" "n \<noteq> ''include_labels''"
                  "n \<noteq> ''timeperiod_intersect''"
        by blast
      then show ?thesis
      proof cases
        case ex
        from "3.IH"(1) [OF Some JStr ex] Some JStr ex show ?thesis by simp
      next
        case inc
        have ne: "n \<noteq> ''exclude_labels''" using inc by simp
        from "3.IH"(2) [OF Some JStr ne inc] Some JStr inc show ?thesis by simp
      next
        case tp
        have ne1: "n \<noteq> ''exclude_labels''" and ne2: "n \<noteq> ''include_labels''"
          using tp by simp_all
        note ih_f = "3.IH"(3) [OF Some JStr ne1 ne2 tp]
        show ?thesis
        proof (cases "timeperiod_intersect tr (VFilter name labels ts) events ds limit start end'")
          case (Inl err)
          with Some JStr tp show ?thesis by simp
        next
          case (Inr evs)
          note ih_fs = "3.IH"(4) [OF Some JStr ne1 ne2 tp Inr]
          from ih_f Inr
          have nf: "\<not> list_ex (\<lambda>b. b \<notin> ds_buckets ds) (filter_buckets (VFilter name labels ts))"
            by auto
          from ih_fs nf Inr Some JStr tp show ?thesis
            by (simp del: filter_buckets.simps)
        qed
      next
        case other
        with Some JStr show ?thesis by simp
      qed
    qed
  qed
next
  case (4 tr name labels ts events ds limit start end')
  show ?case
  proof (cases ts)
    case None
    then show ?thesis by simp
  next
    case (Some bts)
    from 4 [OF Some] show ?thesis using Some by (auto split: sum.splits)
  qed
next
  case (5 tr filterevents ds limit start end')
  show ?case by simp
next
  case (6 tr btransform btransforms filterevents ds limit start end')
  show ?case
  proof (cases "bucket_transform tr btransform ds limit start end'")
    case (Inl err)
    then show ?thesis by simp
  next
    case (Inr evs)
    from "6.IH"(1) Inr
    have "\<not> list_ex (\<lambda>b. b \<notin> ds_buckets ds) (transform_buckets btransform)" by auto
    with "6.IH"(2) [OF Inr] Inr show ?thesis by simp
  qed
qed

lemma query_loop_fails:
  "list_ex (\<lambda>b. b \<notin> ds_buckets ds) (concat (map transform_buckets ts))
   \<Longrightarrow> \<exists>err. query_loop tr ts acc ds limit start end' = Inl err"
proof (induction ts arbitrary: acc)
  case Nil
  then show ?case by simp
next
  case (Cons t ts)
  show ?case
  proof (cases "bucket_transform tr t ds limit start end'")
    case (Inl err)
    then show ?thesis by simp
  next
    case (Inr evs)
    with missing_bucket_fails_aux(1) [of ds t tr limit start end']
    have "\<not> list_ex (\<lambda>b. b \<notin> ds_buckets ds) (transform_buckets t)" by auto
    with Cons Inr show ?thesis by simp
  qed
qed

lemma first_missing_bucket_aux:
  "(valid_transform bt \<longrightarrow>
      (case find (\<lambda>b. b \<notin> ds_buckets ds) (transform_buckets bt) of
         Some m \<Rightarrow> bucket_transform tr bt ds limit start end'
                    = Inl (QueryException (BucketDoesNotExist m))
       | None \<Rightarrow> (\<exists>r. bucket_transform tr bt ds limit start end' = Inr r)))"
  "(list_all valid_filter fs \<longrightarrow>
      (case find (\<lambda>b. b \<notin> ds_buckets ds) (concat (map filter_buckets fs)) of
         Some m \<Rightarrow> apply_filters tr fs events ds limit start end'
                    = Inl (QueryException (BucketDoesNotExist m))
       | None \<Rightarrow> (\<exists>r. apply_filters tr fs events ds limit start end' = Inr r)))"
  "(valid_filter f \<longrightarrow> vf_name f = Some (JStr ''timeperiod_intersect'') \<longrightarrow>
      (case find (\<lambda>b. b \<notin> ds_buckets ds) (filter_buckets f) of
         Some m \<Rightarrow> timeperiod_intersect tr f events2 ds limit start end'
                    = Inl (QueryException (BucketDoesNotExist m))
       | None \<Rightarrow> (\<exists>r. timeperiod_intersect tr f events2 ds limit start end' = Inr r)))"
  "(list_all valid_transform bts \<longrightarrow>
      (case find (\<lambda>b. b \<notin> ds_buckets ds) (concat (map transform_buckets bts)) of
         Some m \<Rightarrow> nested_transforms tr bts acc ds limit start end'
                    = Inl (QueryException (BucketDoesNotExist m))
       | None \<Rightarrow> (\<exists>r. nested_transforms tr bts acc ds limit start end' = Inr r)))"
proof (induction tr bt ds limit start end' and tr fs events ds limit start end'
        and tr f events2 ds limit start end' and tr bts acc ds limit start end'
        rule: query_induct)
  case (1 tr bucket fs ds limit start end')
  show ?case
  proof (intro impI)
    assume v: "valid_transform (BTransform bucket fs)"
    then obtain b where bucket: "bucket = Some (JStr b)"
      by (auto split: option.splits jval.splits)
    show "case find (\<lambda>b. b \<notin> ds_buckets ds) (transform_buckets (BTransform bucket fs)) of
         Some m \<Rightarrow> bucket_transform tr (BTransform bucket fs) ds limit start end'
                    = Inl (QueryException (BucketDoesNotExist m))
       | None \<Rightarrow> (\<exists>r. bucket_transform tr (BTransform bucket fs) ds limit start end' = Inr r)"
    proof (cases "b \<in> ds_buckets ds")
      case False
      with bucket show ?thesis by (simp split: option.splits)
    next
      case True
      show ?thesis
      proof (cases fs)
        case None
        with bucket True show ?thesis by (simp split: option.splits)
      next
        case (Some vfilters)
        from v Some have "list_all valid_filter vfilters" by simp
        with 1 [OF bucket refl _ refl Some] True
        have "case find (\<lambda>b. b \<notin> ds_buckets ds) (concat (map filter_buckets vfilters)) of
                Some m \<Rightarrow> apply_filters tr vfilters (ds_get ds b limit start end') ds limit start end'
                    = Inl (QueryException (BucketDoesNotExist m))
              | None \<Rightarrow> (\<exists>r. apply_filters tr vfilters (ds_get ds b limit start end') ds limit
                    start end' = Inr r)"
          by simp
        with bucket True Some show ?thesis by (simp split: option.splits)
      qed
    qed
  qed
next
  case (2 tr events ds limit start end')
  show ?case by simp
next
  case (3 tr name labels ts vfilters events ds limit start end')
  show ?case
  proof (intro impI)
    assume v: "list_all valid_filter (VFilter name labels ts # vfilters)"
    then have vf: "valid_filter (VFilter name labels ts)" and vr: "list_all valid_filter vfilters"
      by simp_all
    from vf consider (ex) "name = Some (JStr ''exclude_labels'')"
      | (inc) "name = Some (JStr ''include_labels'')"
      | (tp) "name = Some (JStr ''timeperiod_intersect'')"
      by auto
    then show "case find (\<lambda>b. b \<notin> ds_buckets ds)
                 (concat (map filter_buckets (VFilter name labels ts # vfilters))) of
         Some m \<Rightarrow> apply_filters tr (VFilter name labels ts # vfilters) events ds limit start end'
                    = Inl (QueryException (BucketDoesNotExist m))
       | None \<Rightarrow> (\<exists>r. apply_filters tr (VFilter name labels ts # vfilters) events ds limit
                    start end' = Inr r)"
    proof cases
      case ex
      from "3.IH"(1) [OF ex refl refl] vr ex show ?thesis by (simp split: option.splits)
    next
      case inc
      from "3.IH"(2) [OF inc refl _ refl] vr inc show ?thesis by (simp split: option.splits)
    next
      case tp
      have ne1: "''timeperiod_intersect'' \<noteq> ''exclude_labels''"
        and ne2: "''timeperiod_intersect'' \<noteq> ''include_labels''"
        by simp_all
      from "3.IH"(3) [OF tp refl ne1 ne2 refl] vf tp
      have ih_f: "case find (\<lambda>b. b \<notin> ds_buckets ds) (filter_buckets (VFilter name labels ts)) of
         Some m \<Rightarrow> timeperiod_intersect tr (VFilter name labels ts) events ds limit start end'
                    = Inl (QueryException (BucketDoesNotExist m))
       | None \<Rightarrow> (\<exists>r. timeperiod_intersect tr (VFilter name labels ts) events ds limit
                    start end' = Inr r)"
        by simp
      show ?thesis
      proof (cases "find (\<lambda>b. b \<notin> ds_buckets ds) (filter_buckets (VFilter name labels ts))")
        case (Some b)
        with ih_f tp show ?thesis
          by (simp add: find_append_case split: option.splits
              del: filter_buckets.simps timeperiod_intersect.simps)
      next
        case None
        with ih_f obtain evs
          where evs: "timeperiod_intersect tr (VFilter name labels ts) events ds limit start end'
                        = Inr evs"
          by auto
        from "3.IH"(4) [OF tp refl ne1 ne2 refl evs] vr None evs tp show ?thesis
          by (simp add: find_append_case split: option.splits
              del: filter_buckets.simps timeperiod_intersect.simps)
      qed
    qed
  qed
next
  case (4 tr name labels ts events ds limit start end')
  show ?case
  proof (intro impI)
    assume v: "valid_filter (VFilter name labels ts)"
      and n: "vf_name (VFilter name labels ts) = Some (JStr ''timeperiod_intersect'')"
    then obtain bts where ts: "ts = Some bts" and vb: "list_all valid_transform bts"
      by (auto split: option.splits)
    from 4 [OF ts] vb
    have "case find (\<lambda>b. b \<notin> ds_buckets ds) (concat (map transform_buckets bts)) of
         Some m \<Rightarrow> nested_transforms tr bts [] ds limit start end'
                    = Inl (QueryException (BucketDoesNotExist m))
       | None \<Rightarrow> (\<exists>r. nested_transforms tr bts [] ds limit start end' = Inr r)"
      by simp
    with ts n show "case find (\<lambda>b. b \<notin> ds_buckets ds) (filter_buckets (VFilter name labels ts)) of
         Some m \<Rightarrow> timeperiod_intersect tr (VFilter name labels ts) events ds limit start end'
                    = Inl (QueryException (BucketDoesNotExist m))
       | None \<Rightarrow> (\<exists>r. timeperiod_intersect tr (VFilter name labels ts) events ds limit
                    start end' = Inr r)"
      by (auto split: option.splits)
  qed
next
  case (5 tr filterevents ds limit start end')
  show ?case by simp
next
  case (6 tr btransform btransforms filterevents ds limit start end')
  show ?case
  proof (intro impI)
    assume v: "list_all valid_transform (btransform # btransforms)"
    then have vt: "valid_transform btransform" and vr: "list_all valid_transform btransforms"
      by simp_all
    from "6.IH"(1) vt
    have ih_t: "case find (\<lambda>b. b \<notin> ds_buckets ds) (transform_buckets btransform) of
         Some m \<Rightarrow> bucket_transform tr btransform ds limit start end'
                    = Inl (QueryException (BucketDoesNotExist m))
       | None \<Rightarrow> (\<exists>r. bucket_transform tr btransform ds limit start end' = Inr r)"
      by simp
    show "case find (\<lambda>b. b \<notin> ds_buckets ds)
                 (concat (map transform_buckets (btransform # btransforms))) of
         Some m \<Rightarrow> nested_transforms tr (btransform # btransforms) filterevents ds limit start end'
                    = Inl (QueryException (BucketDoesNotExist m))
       | None \<Rightarrow> (\<exists>r. nested_transforms tr (btransform # btransforms) filterevents ds limit
                    start end' = Inr r)"
    proof (cases "find (\<lambda>b. b \<notin> ds_buckets ds) (transform_buckets btransform)")
      case (Some b)
      with ih_t show ?thesis by (simp add: find_append_case split: option.splits)
    next
      case None
      with ih_t obtain evs
        where evs: "bucket_transform tr btransform ds limit start end' = Inr evs" by auto
      from "6.IH"(2) [OF evs] vr None evs show ?thesis
        by (simp add: find_append_case split: option.splits)
    qed
  qed
qed

lemma query_loop_first_missing:
  "list_all valid_transform ts
   \<Longrightarrow> (case find (\<lambda>b. b \<notin> ds_buckets ds) (concat (map transform_buckets ts)) of
         Some m \<Rightarrow> query_loop tr ts acc ds limit start end'
                    = Inl (QueryException (BucketDoesNotExist m))
       | None \<Rightarrow> (\<exists>r. query_loop tr ts acc ds limit start end' = Inr r))"
proof (induction ts arbitrary: acc)
  case Nil
  show ?case by simp
next
  case (Cons t ts)
  then have vt: "valid_transform t" and vr: "list_all valid_transform ts" by simp_all
  note ih_t = first_missing_bucket_aux(1) [where bt = t and ds = ds and tr = tr and limit = limit
      and start = start and end' = end', rule_format, OF vt]
  show ?case
  proof (cases "find (\<lambda>b. b \<notin> ds_buckets ds) (transform_buckets t)")
    case (Some b)
    with ih_t show ?thesis by (simp add: find_append_case split: option.splits)
  next
    case None
    with ih_t obtain evs where evs: "bucket_transform tr t ds limit start end' = Inr evs"
      by auto
    from Cons.IH [OF vr, of "acc @ evs"] None evs show ?thesis
      by (simp add: find_append_case split: option.splits)
  qed
qed

text \<open>
  Claim C2. The \<open>timeperiod_intersect\<close> filter evaluates each nested transform with the
  same datastore, limit, start and end, concatenates their results in order and applies
  \<open>filter_period_intersect\<close> to the current events with that stream as the filter. In the
  scenario, bucket \<open>A\<close> holds \<open>[(0,10,x)]\<close> and bucket \<open>B\<close> holds \<open>[(2,3)]\<close>; the query
  with one transform on \<open>A\<close> filtered by \<open>timeperiod_intersect\<close> over \<open>B\<close> yields the
  single event \<open>(2,3)\<close> carrying the data of \<open>A\<close>'s event.
\<close>

theorem timeperiod_intersect_recursive:
  "(vf_transforms tfilter = Some bts \<longrightarrow>
      list_all2 (\<lambda>bt r. bucket_transform tr bt ds limit start end' = Inr r) bts rs \<longrightarrow>
      timeperiod_intersect tr tfilter events ds limit start end'
        = Inr (filter_period_intersect events (concat rs)))
   \<and> (''A'' \<in> ds_buckets ds \<longrightarrow> ''B'' \<in> ds_buckets ds \<longrightarrow>
        ds_get ds ''A'' limit start end' = [\<lparr>timestamp = 0, duration = 10, data = x\<rparr>] \<longrightarrow>
        ds_get ds ''B'' limit start end' = [\<lparr>timestamp = 2, duration = 3, data = m\<rparr>] \<longrightarrow>
        query tr to_json_dict
          \<lparr>q_transforms = Some [BTransform (Some (JStr ''A''))
             (Some [VFilter (Some (JStr ''timeperiod_intersect'')) None
                (Some [BTransform (Some (JStr ''B'')) None])])],
           q_chunk = None\<rparr> ds limit start end'
        = Inr (EventResult 1 [to_json_dict \<lparr>timestamp = 2, duration = 3, data = x\<rparr>]))"
proof (intro conjI impI)
  assume "vf_transforms tfilter = Some bts"
    and "list_all2 (\<lambda>bt r. bucket_transform tr bt ds limit start end' = Inr r) bts rs"
  then show "timeperiod_intersect tr tfilter events ds limit start end'
        = Inr (filter_period_intersect events (concat rs))"
    by (cases tfilter) (simp add: nested_transforms_concat)
next
  assume "''A'' \<in> ds_buckets ds" "''B'' \<in> ds_buckets ds"
    "ds_get ds ''A'' limit start end' = [\<lparr>timestamp = 0, duration = 10, data = x\<rparr>]"
    "ds_get ds ''B'' limit start end' = [\<lparr>timestamp = 2, duration = 3, data = m\<rparr>]"
  then show "query tr to_json_dict
          \<lparr>q_transforms = Some [BTransform (Some (JStr ''A''))
             (Some [VFilter (Some (JStr ''timeperiod_intersect'')) None
                (Some [BTransform (Some (JStr ''B'')) None])])],
           q_chunk = None\<rparr> ds limit start end'
        = Inr (EventResult 1 [to_json_dict \<lparr>timestamp = 2, duration = 3, data = x\<rparr>])"
    by (simp add: query_def filter_period_intersect_def sorted_events_def get_event_period_def
        intersection_def replace_event_period_def period_duration_def Let_def)
qed

theorem timeperiod_intersect_recursive_witness:
  "query \<lparr>t_include_labels = (\<lambda>es ls. es), t_exclude_labels = (\<lambda>es ls. es), t_chunk = length\<rparr>
      (\<lambda>e. e)
      \<lparr>q_transforms = Some [BTransform (Some (JStr ''A''))
         (Some [VFilter (Some (JStr ''timeperiod_intersect'')) None
            (Some [BTransform (Some (JStr ''B'')) None])])],
       q_chunk = None\<rparr>
      \<lparr>ds_buckets = {''A'', ''B''},
       ds_get = (\<lambda>b l s e. if b = ''A'' then [\<lparr>timestamp = 0, duration = 10, data = ''label=x''\<rparr>]
                    else if b = ''B'' then [\<lparr>timestamp = 2, duration = 3, data = ''afk''\<rparr>]
                    else [])\<rparr>
      0 None None
    = Inr (EventResult 1 [\<lparr>timestamp = 2, duration = 3, data = ''label=x''\<rparr>])
   \<and> timeperiod_intersect
        \<lparr>t_include_labels = (\<lambda>es ls. es), t_exclude_labels = (\<lambda>es ls. es), t_chunk = length\<rparr>
        (VFilter (Some (JStr ''timeperiod_intersect'')) None
            (Some [BTransform (Some (JStr ''B'')) None]))
        [\<lparr>timestamp = 0, duration = 10, data = ''label=x''\<rparr>]
        \<lparr>ds_buckets = {''A'', ''B''},
         ds_get = (\<lambda>b l s e. if b = ''A'' then [\<lparr>timestamp = 0, duration = 10, data = ''label=x''\<rparr>]
                    else if b = ''B'' then [\<lparr>timestamp = 2, duration = 3, data = ''afk''\<rparr>]
                    else [])\<rparr>
        0 None None
      = Inr (filter_period_intersect [\<lparr>timestamp = 0, duration = 10, data = ''label=x''\<rparr>]
               (concat [[\<lparr>timestamp = 2, duration = 3, data = ''afk''\<rparr>]]))"
  using timeperiod_intersect_recursive
    [where tr = "\<lparr>t_include_labels = (\<lambda>es ls. es), t_exclude_labels = (\<lambda>es ls. es),
                  t_chunk = length\<rparr>"
       and to_json_dict = "\<lambda>e. e"
       and ds = "\<lparr>ds_buckets = {''A'', ''B''},
          ds_get = (\<lambda>b l s e. if b = ''A'' then [\<lparr>timestamp = 0, duration = 10, data = ''label=x''\<rparr>]
                    else if b = ''B'' then [\<lparr>timestamp = 2, duration = 3, data = ''afk''\<rparr>]
                    else [])\<rparr>"
       and limit = 0 and start = None and end' = None
       and x = "''label=x''" and m = "''afk''"
       and tfilter = "VFilter (Some (JStr ''timeperiod_intersect'')) None
            (Some [BTransform (Some (JStr ''B'')) None])"
       and bts = "[BTransform (Some (JStr ''B'')) None]"
       and rs = "[[\<lparr>timestamp = 2, duration = 3, data = ''afk''\<rparr>]]"
       and events = "[\<lparr>timestamp = 0, duration = 10, data = ''label=x''\<rparr>]"]
  by simp

text \<open>
  Claim C7. When a transform of the query, at top level or nested in a
  \<open>timeperiod_intersect\<close> filter, names a bucket that does not exist, \<open>query\<close> raises and
  returns no result at all, whatever the other transforms are. When the rest of the
  document is valid, the exception is the query-validation failure \<open>QueryException\<close> for
  the first such bucket in the order of evaluation, at any depth. When the transforms
  before a top-level transform that names a missing bucket evaluate without error, it is
  the \<open>QueryException\<close> for that bucket, whatever follows it.
\<close>

theorem query_missing_bucket_fails:
  assumes "q_transforms q = Some ts"
    and "list_ex (\<lambda>b. b \<notin> ds_buckets ds) (concat (map transform_buckets ts))"
  shows "(\<exists>err. query tr to_json_dict q ds limit start end' = Inl err)
     \<and> (list_all valid_transform ts \<longrightarrow>
          (\<exists>m. find (\<lambda>b. b \<notin> ds_buckets ds) (concat (map transform_buckets ts)) = Some m
             \<and> m \<notin> ds_buckets ds
             \<and> query tr to_json_dict q ds limit start end'
                 = Inl (QueryException (BucketDoesNotExist m))))
     \<and> (ts = pre @ BTransform (Some (JStr b)) fs # post \<longrightarrow> b \<notin> ds_buckets ds \<longrightarrow>
          list_all2 (\<lambda>bt r. bucket_transform tr bt ds limit start end' = Inr r) pre rs \<longrightarrow>
          query tr to_json_dict q ds limit start end'
            = Inl (QueryException (BucketDoesNotExist b)))"
proof (intro conjI impI)
  from query_loop_fails [OF assms(2)] obtain err
    where "query_loop tr ts [] ds limit start end' = Inl err" by blast
  with assms(1) have "query tr to_json_dict q ds limit start end' = Inl err"
    by (simp add: query_def)
  then show "\<exists>err. query tr to_json_dict q ds limit start end' = Inl err" ..
next
  assume valid: "list_all valid_transform ts"
  from assms(2) obtain m
    where m: "find (\<lambda>b. b \<notin> ds_buckets ds) (concat (map transform_buckets ts)) = Some m"
    by (cases "find (\<lambda>b. b \<notin> ds_buckets ds) (concat (map transform_buckets ts))")
       (auto simp: find_None_iff list_ex_iff)
  then have miss: "m \<notin> ds_buckets ds"
    by (auto simp: find_Some_iff)
  from query_loop_first_missing [OF valid, where ds = ds and tr = tr and acc = "[]"
      and limit = limit and start = start and end' = end'] m
  have "query_loop tr ts [] ds limit start end' = Inl (QueryException (BucketDoesNotExist m))"
    by simp
  with assms(1) have "query tr to_json_dict q ds limit start end'
      = Inl (QueryException (BucketDoesNotExist m))"
    by (simp add: query_def)
  with m miss show "\<exists>m. find (\<lambda>b. b \<notin> ds_buckets ds) (concat (map transform_buckets ts)) = Some m
             \<and> m \<notin> ds_buckets ds
             \<and> query tr to_json_dict q ds limit start end'
                 = Inl (QueryException (BucketDoesNotExist m))"
    by blast
next
  assume ts: "ts = pre @ BTransform (Some (JStr b)) fs # post" and b: "b \<notin> ds_buckets ds"
    and pre: "list_all2 (\<lambda>bt r. bucket_transform tr bt ds limit start end' = Inr r) pre rs"
  have "bucket_transform tr (BTransform (Some (JStr b)) fs) ds limit start end'
          = Inl (QueryException (BucketDoesNotExist b))"
    using b by simp
  from query_loop_error [OF pre this]
  have "query_loop tr ts [] ds limit start end' = Inl (QueryException (BucketDoesNotExist b))"
    using ts by simp
  with assms(1) show "query tr to_json_dict q ds limit start end'
            = Inl (QueryException (BucketDoesNotExist b))"
    by (simp add: query_def)
qed

theorem query_missing_bucket_fails_witness:
  "list_ex (\<lambda>b. b \<notin> {''A'', ''B''})
      (concat (map transform_buckets
        [BTransform (Some (JStr ''A''))
           (Some [VFilter (Some (JStr ''exclude_labels'')) (Some [''x'']) None,
                  VFilter (Some (JStr ''timeperiod_intersect'')) None
                    (Some [BTransform (Some (JStr ''B'')) None,
                           BTransform (Some (JStr ''nope'')) None])]),
         BTransform (Some (JStr ''A'')) None]))
   \<and> list_all valid_transform
        [BTransform (Some (JStr ''A''))
           (Some [VFilter (Some (JStr ''exclude_labels'')) (Some [''x'']) None,
                  VFilter (Some (JStr ''timeperiod_intersect'')) None
                    (Some [BTransform (Some (JStr ''B'')) None,
                           BTransform (Some (JStr ''nope'')) None])]),
         BTransform (Some (JStr ''A'')) None]
   \<and> query \<lparr>t_include_labels = (\<lambda>es ls. es), t_exclude_labels = (\<lambda>es ls. es), t_chunk = length\<rparr>
      (\<lambda>e. e)
      \<lparr>q_transforms = Some
        [BTransform (Some (JStr ''A''))
           (Some [VFilter (Some (JStr ''exclude_labels'')) (Some [''x'']) None,
                  VFilter (Some (JStr ''timeperiod_intersect'')) None
                    (Some [BTransform (Some (JStr ''B'')) None,
                           BTransform (Some (JStr ''nope'')) None])]),
         BTransform (Some (JStr ''A'')) None],
       q_chunk = None\<rparr>
      \<lparr>ds_buckets = {''A'', ''B''},
       ds_get = (\<lambda>b l s e. [\<lparr>timestamp = 0, duration = 10, data = ''x''\<rparr>])\<rparr>
      0 None None
    = Inl (QueryException (BucketDoesNotExist ''nope''))
   \<and> query \<lparr>t_include_labels = (\<lambda>es ls. es), t_exclude_labels = (\<lambda>es ls. es), t_chunk = length\<rparr>
      (\<lambda>e. e)
      \<lparr>q_transforms = Some [BTransform (Some (JStr ''A'')) None,
                             BTransform (Some (JStr ''gone'')) None,
                             BTransform None None],
       q_chunk = None\<rparr>
      \<lparr>ds_buckets = {''A'', ''B''},
       ds_get = (\<lambda>b l s e. [\<lparr>timestamp = 0, duration = 10, data = ''x''\<rparr>])\<rparr>
      0 None None
    = Inl (QueryException (BucketDoesNotExist ''gone''))"
proof -
  let ?tr = "\<lparr>t_include_labels = (\<lambda>es ls. es), t_exclude_labels = (\<lambda>es ls. es),
              t_chunk = length\<rparr> :: (string, nat) transforms"
  let ?ds = "\<lparr>ds_buckets = {''A'', ''B''},
       ds_get = (\<lambda>b l s e. [\<lparr>timestamp = 0, duration = 10, data = ''x''\<rparr>])\<rparr>"
  let ?ts = "[BTransform (Some (JStr ''A''))
           (Some [VFilter (Some (JStr ''exclude_labels'')) (Some [''x'']) None,
                  VFilter (Some (JStr ''timeperiod_intersect'')) None
                    (Some [BTransform (Some (JStr ''B'')) None,
                           BTransform (Some (JStr ''nope'')) None])]),
         BTransform (Some (JStr ''A'')) None]"
  let ?ts2 = "[BTransform (Some (JStr ''A'')) None, BTransform (Some (JStr ''gone'')) None,
               BTransform None None]"
  have ex: "list_ex (\<lambda>b. b \<notin> {''A'', ''B''}) (concat (map transform_buckets ?ts))"
    by simp
  have valid: "list_all valid_transform ?ts"
    by simp
  from query_missing_bucket_fails
    [where q = "\<lparr>q_transforms = Some ?ts, q_chunk = None\<rparr>" and ts = ?ts and ds = ?ds
       and tr = ?tr and to_json_dict = "\<lambda>e. e" and limit = 0 and start = None and end' = None]
  have nested: "query ?tr (\<lambda>e. e) \<lparr>q_transforms = Some ?ts, q_chunk = None\<rparr> ?ds 0 None None
    = Inl (QueryException (BucketDoesNotExist ''nope''))"
    by simp
  from query_missing_bucket_fails
    [where q = "\<lparr>q_transforms = Some ?ts2, q_chunk = None\<rparr>" and ts = ?ts2 and ds = ?ds
       and tr = ?tr and to_json_dict = "\<lambda>e. e" and limit = 0 and start = None and end' = None
       and pre = "[BTransform (Some (JStr ''A'')) None]" and b = "''gone''" and fs = None
       and post = "[BTransform None None]"
       and rs = "[[\<lparr>timestamp = 0, duration = 10, data = ''x''\<rparr>]]"]
  have top: "query ?tr (\<lambda>e. e) \<lparr>q_transforms = Some ?ts2, q_chunk = None\<rparr> ?ds 0 None None
    = Inl (QueryException (BucketDoesNotExist ''gone''))"
    by simp
  from ex valid nested top show ?thesis by (intro conjI)
qed

end
